theory Spec2Isabelle
  imports Main "HOL-Library.Sublist" "HOL-Library.Char_ord" "HOL-Library.List_Lexorder"
begin

section \<open>Data model\<close>

text \<open>
  The registry adapter of \<^verbatim>\<open>main.go\<close> translates between a digest-addressed content
  store with a name-indexed image catalog (both reached through the containerd client)
  and the repository/tag/blob operations of the registry protocol. Strings and blob
  contents are byte sequences; Go compares strings bytewise, which is the lexicographic
  order on \<open>char list\<close>.
\<close>

type_synonym digest = string
type_synonym bytes = string

text \<open>
  Go error values. \<open>ErrNotFound\<close> is the not-found error of the store and of the
  catalog, \<open>ErrorString\<close> is \<^verbatim>\<open>errors.New\<close>, the others stand for upstream and decoder
  failures (\<^verbatim>\<open>io.EOF\<close> among them), which the program passes on as they are.
\<close>

datatype error =
  ErrNotFound | ErrUnavailable | ErrSyntax | ErrEOF | ErrUnexpectedEOF | ErrorString string

text \<open>
  The outcome of a Go call that returns \<^verbatim>\<open>(T, error)\<close> (or only \<^verbatim>\<open>error\<close>, with
  \<open>T = unit\<close>): a value with a nil error, a non-nil error, or a run-time panic, here the
  nil dereference of a method call on a nil interface value.
\<close>

datatype 'a outcome = Return 'a | Failure error | Panic

text \<open>
  \<^verbatim>\<open>ociregistry.Descriptor\<close>: the program reads and writes the digest, the size
  (\<^verbatim>\<open>int64\<close>, only compared with zero and assigned) and the media type.
\<close>

record descriptor =
  MediaType :: string
  Digest :: digest
  Size :: int

text \<open>A catalog entry (\<^verbatim>\<open>images.Image\<close>): a qualified name and its target descriptor.\<close>

record image =
  Name :: string
  Target :: descriptor

text \<open>
  A byte-range reader handed out by the store (\<^verbatim>\<open>content.ReaderAt\<close>): the handle under
  which the store counts it and the bytes of the blob it reads.
\<close>

record ReaderAt =
  handle :: nat
  ra_bytes :: bytes

text \<open>
  \<^verbatim>\<open>containerdBlobReader\<close>. The fields \<^verbatim>\<open>client\<close> and \<^verbatim>\<open>ctx\<close> are the world that every
  operation below takes as an argument. \<open>readerAt = None\<close> and \<open>reader = None\<close> are Go's
  nil; an open \<open>reader\<close> is the offset of the sequential reader that \<^verbatim>\<open>content.NewReader\<close>
  puts over \<open>readerAt\<close>.
\<close>

record containerdBlobReader =
  desc :: descriptor
  readerAt :: "ReaderAt option"
  reader :: "nat option"

text \<open>
  What the containerd client reaches: the blobs of the content store by digest (or the
  store's error for that digest), the image catalog as its listing returns it (or the
  listing's error), and the bookkeeping of a mock store: how many readers were opened, the
  handles closed so far in order, the error a reader gives when it is closed again, and the
  number of bytes read from store readers.
\<close>

record world =
  blobs :: "digest \<Rightarrow> error + bytes"
  images :: "error + image list"
  opened :: nat
  closed :: "nat list"
  reclose :: "error option"
  nread :: nat

section \<open>The collaborators: content store and image catalog\<close>

text \<open>\<^verbatim>\<open>ContentStore().Info(ctx, digest)\<close>: the size the store records for the digest.\<close>

definition ContentStore_Info :: "world \<Rightarrow> digest \<Rightarrow> error + int" where
  "ContentStore_Info w dgst =
     (case blobs w dgst of Inl err \<Rightarrow> Inl err | Inr b \<Rightarrow> Inr (int (length b)))"

text \<open>
  \<^verbatim>\<open>ContentStore().ReaderAt(ctx, desc)\<close>: only the digest of the descriptor is used. A
  successful call opens a new reader.
\<close>

definition ContentStore_ReaderAt :: "world \<Rightarrow> descriptor \<Rightarrow> (error + ReaderAt) \<times> world" where
  "ContentStore_ReaderAt w d =
     (case blobs w (Digest d) of
        Inl err \<Rightarrow> (Inl err, w)
      | Inr b \<Rightarrow> (Inr \<lparr>handle = opened w, ra_bytes = b\<rparr>, w\<lparr>opened := Suc (opened w)\<rparr>))"

definition ReaderAt_Size :: "ReaderAt \<Rightarrow> int" where
  "ReaderAt_Size ra = int (length (ra_bytes ra))"

definition ReaderAt_Close :: "ReaderAt \<Rightarrow> world \<Rightarrow> unit outcome \<times> world" where
  "ReaderAt_Close ra w =
     ((if handle ra \<in> set (closed w)
       then (case reclose w of None \<Rightarrow> Return () | Some err \<Rightarrow> Failure err)
       else Return ()),
      w\<lparr>closed := closed w @ [handle ra]\<rparr>)"

text \<open>The store readers that are open: opened and not yet closed.\<close>

definition open_readers :: "world \<Rightarrow> nat list" where
  "open_readers w = filter (\<lambda>h. h \<notin> set (closed w)) [0..<opened w]"

section \<open>Blob Stream\<close>

definition validate :: "world \<Rightarrow> containerdBlobReader \<Rightarrow> error option \<times> containerdBlobReader" where
  "validate w br =
     (case ContentStore_Info w (Digest (desc br)) of
        Inl err \<Rightarrow> (Some err, br)
      | Inr info_Size \<Rightarrow>
          (let br1 = (if Size (desc br) = 0 \<and> info_Size \<noteq> 0
                      then br\<lparr>desc := (desc br)\<lparr>Size := info_Size\<rparr>\<rparr> else br);
               br2 = (if MediaType (desc br1) = []
                      then br1\<lparr>desc := (desc br1)\<lparr>MediaType := ''application/octet-stream''\<rparr>\<rparr>
                      else br1)
           in (None, br2)))"

definition ensureReaderAt ::
  "containerdBlobReader \<Rightarrow> world \<Rightarrow> ReaderAt outcome \<times> containerdBlobReader \<times> world" where
  "ensureReaderAt br w =
     (case readerAt br of
        Some ra \<Rightarrow> (Return ra, br, w)
      | None \<Rightarrow>
          (case ContentStore_ReaderAt w (desc br) of
             (Inl err, w') \<Rightarrow> (Failure err, br, w')
           | (Inr ra, w') \<Rightarrow> (Return ra, br\<lparr>readerAt := Some ra\<rparr>, w')))"

definition ensureReader ::
  "containerdBlobReader \<Rightarrow> world \<Rightarrow> nat outcome \<times> containerdBlobReader \<times> world" where
  "ensureReader br w =
     (case reader br of
        Some off \<Rightarrow> (Return off, br, w)
      | None \<Rightarrow>
          (case ensureReaderAt br w of
             (Return ra, br', w') \<Rightarrow> (Return 0, br'\<lparr>reader := Some 0\<rparr>, w')
           | (Failure err, br', w') \<Rightarrow> (Failure err, br', w')
           | (Panic, br', w') \<Rightarrow> (Panic, br', w')))"

text \<open>
  \<^verbatim>\<open>Read(p)\<close> with \<open>n = len(p)\<close>: the bytes delivered, with \<^verbatim>\<open>io.EOF\<close> once the reader
  stands at the end of the blob.
\<close>

datatype read_result = Bytes bytes | EOF

definition Read ::
  "containerdBlobReader \<Rightarrow> nat \<Rightarrow> world \<Rightarrow> read_result outcome \<times> containerdBlobReader \<times> world" where
  "Read br n w =
     (case ensureReader br w of
        (Failure err, br', w') \<Rightarrow> (Failure err, br', w')
      | (Panic, br', w') \<Rightarrow> (Panic, br', w')
      | (Return off, br', w') \<Rightarrow>
          (case readerAt br' of
             None \<Rightarrow> (Panic, br', w')
           | Some ra \<Rightarrow>
               (if length (ra_bytes ra) \<le> off then (Return EOF, br', w')
                else (let p = take n (drop off (ra_bytes ra))
                      in (Return (Bytes p), br'\<lparr>reader := Some (off + length p)\<rparr>,
                          w'\<lparr>nread := nread w' + length p\<rparr>)))))"

definition Descriptor :: "containerdBlobReader \<Rightarrow> descriptor" where
  "Descriptor br = desc br"

text \<open>
  \<^verbatim>\<open>Close\<close> calls \<^verbatim>\<open>br.readerAt.Close()\<close> with no nil check: on a nil \<open>readerAt\<close> the
  method call panics.
\<close>

definition Close :: "containerdBlobReader \<Rightarrow> world \<Rightarrow> unit outcome \<times> world" where
  "Close br w =
     (case readerAt br of
        None \<Rightarrow> (Panic, w)
      | Some ra \<Rightarrow> ReaderAt_Close ra w)"

text \<open>
  The constructor ignores the value \<^verbatim>\<open>br.Close()\<close> returns on the error path; a
  panic of that call unwinds the constructor.
\<close>

definition newContainerdBlobReaderFromDescriptor ::
  "descriptor \<Rightarrow> world \<Rightarrow> containerdBlobReader outcome \<times> world" where
  "newContainerdBlobReaderFromDescriptor d w =
     (let br = \<lparr>desc = d, readerAt = None, reader = None\<rparr>
      in case validate w br of
           (Some err, br') \<Rightarrow>
             (case Close br' w of
                (Panic, w') \<Rightarrow> (Panic, w')
              | (_, w') \<Rightarrow> (Failure err, w'))
         | (None, br') \<Rightarrow> (Return br', w))"

definition newContainerdBlobReaderFromDigest ::
  "digest \<Rightarrow> world \<Rightarrow> containerdBlobReader outcome \<times> world" where
  "newContainerdBlobReaderFromDigest dgst w =
     newContainerdBlobReaderFromDescriptor \<lparr>MediaType = [], Digest = dgst, Size = 0\<rparr> w"

section \<open>Registry adapter\<close>

definition GetBlob :: "string \<Rightarrow> digest \<Rightarrow> world \<Rightarrow> containerdBlobReader outcome \<times> world" where
  "GetBlob repo dgst w = newContainerdBlobReaderFromDigest dgst w"

text \<open>
  The JSON decoding of \<^verbatim>\<open>GetManifest\<close> is the library's
  (\<^verbatim>\<open>json.NewDecoder(...).Decode\<close> into a struct with the one field
  \<^verbatim>\<open>mediaType\<close>), so \<^verbatim>\<open>GetManifest\<close> takes it as a parameter: from the bytes the
  reader can deliver, the decoding error or the decoded field (empty when the document
  has none), and the number of bytes the decoder took from the reader.
\<close>

type_synonym decoder = "bytes \<Rightarrow> (error + string) \<times> nat"

text \<open>
  The reader handed to the decoder is \<^verbatim>\<open>content.NewReader(ra)\<close> itself, over the whole
  blob. The deferred \<^verbatim>\<open>ra.Close()\<close> runs on every way out, its result dropped.
\<close>

definition GetManifest ::
  "decoder \<Rightarrow> string \<Rightarrow> digest \<Rightarrow> world \<Rightarrow> containerdBlobReader outcome \<times> world" where
  "GetManifest Decode repo dgst w =
     (let d = \<lparr>MediaType = [], Digest = dgst, Size = 0\<rparr>
      in case ContentStore_ReaderAt w d of
           (Inl err, w1) \<Rightarrow> (Failure err, w1)
         | (Inr ra, w1) \<Rightarrow>
             (let (res, w3) =
                    (case Decode (ra_bytes ra) of
                       (Inl err, k) \<Rightarrow> (Failure err, w1\<lparr>nread := nread w1 + k\<rparr>)
                     | (Inr mediaType, k) \<Rightarrow>
                         (let w2 = w1\<lparr>nread := nread w1 + k\<rparr>
                          in if mediaType = []
                             then (Failure (ErrorString ''failed to parse mediaType''), w2)
                             else newContainerdBlobReaderFromDescriptor
                                    (d\<lparr>Size := ReaderAt_Size ra, MediaType := mediaType\<rparr>) w2))
              in (res, snd (ReaderAt_Close ra w3))))"

text \<open>
  The catalog (\<^verbatim>\<open>ImageService\<close>). The one filter the program passes to \<^verbatim>\<open>List\<close> is
  \<^verbatim>\<open>"name~=" + strconv.Quote("^" + regexp.QuoteMeta(repo) + ":")\<close>: the name must match
  the regular expression made of the start anchor and a literal (\<^verbatim>\<open>QuoteMeta\<close> escapes
  every metacharacter of \<^verbatim>\<open>repo\<close>, and the colon is none); \<open>NameMatchesAnchored lit\<close> is
  that filter for the literal \<open>lit\<close>, and it holds of the names that begin with \<open>lit\<close>.
  With no filter every entry is listed; entries keep the catalog's order.
\<close>

datatype filter_expr = NameMatchesAnchored string

fun filter_matches :: "filter_expr \<Rightarrow> image \<Rightarrow> bool" where
  "filter_matches (NameMatchesAnchored lit) img = prefix lit (Name img)"

definition ImageService_List :: "world \<Rightarrow> filter_expr list \<Rightarrow> error + image list" where
  "ImageService_List w fs =
     (case images w of
        Inl err \<Rightarrow> Inl err
      | Inr imgs \<Rightarrow>
          Inr (if fs = [] then imgs
               else filter (\<lambda>img. list_ex (\<lambda>f. filter_matches f img) fs) imgs))"

definition ImageService_Get :: "world \<Rightarrow> string \<Rightarrow> error + image" where
  "ImageService_Get w name =
     (case images w of
        Inl err \<Rightarrow> Inl err
      | Inr imgs \<Rightarrow>
          (case find (\<lambda>img. Name img = name) imgs of
             None \<Rightarrow> Inl ErrNotFound
           | Some img \<Rightarrow> Inr img))"

definition GetTag :: "string \<Rightarrow> string \<Rightarrow> world \<Rightarrow> containerdBlobReader outcome \<times> world" where
  "GetTag repo tagName w =
     (case ImageService_Get w (repo @ '':'' @ tagName) of
        Inl err \<Rightarrow> (Failure err, w)
      | Inr img \<Rightarrow> (Return \<lparr>desc = Target img, readerAt = None, reader = None\<rparr>, w))"

text \<open>
  The three resolve operations: the deferred \<^verbatim>\<open>blobReader.Close()\<close> runs after the
  descriptor has been read; its error is dropped, its panic is the operation's.
\<close>

definition ResolveBlob :: "string \<Rightarrow> digest \<Rightarrow> world \<Rightarrow> descriptor outcome \<times> world" where
  "ResolveBlob repo dgst w =
     (case GetBlob repo dgst w of
        (Failure err, w1) \<Rightarrow> (Failure err, w1)
      | (Panic, w1) \<Rightarrow> (Panic, w1)
      | (Return blobReader, w1) \<Rightarrow>
          (let d = Descriptor blobReader
           in case Close blobReader w1 of
                (Panic, w2) \<Rightarrow> (Panic, w2)
              | (_, w2) \<Rightarrow> (Return d, w2)))"

definition ResolveManifest ::
  "decoder \<Rightarrow> string \<Rightarrow> digest \<Rightarrow> world \<Rightarrow> descriptor outcome \<times> world" where
  "ResolveManifest Decode repo dgst w =
     (case GetManifest Decode repo dgst w of
        (Failure err, w1) \<Rightarrow> (Failure err, w1)
      | (Panic, w1) \<Rightarrow> (Panic, w1)
      | (Return blobReader, w1) \<Rightarrow>
          (let d = Descriptor blobReader
           in case Close blobReader w1 of
                (Panic, w2) \<Rightarrow> (Panic, w2)
              | (_, w2) \<Rightarrow> (Return d, w2)))"

definition ResolveTag :: "string \<Rightarrow> string \<Rightarrow> world \<Rightarrow> descriptor outcome \<times> world" where
  "ResolveTag repo tagName w =
     (case GetTag repo tagName w of
        (Failure err, w1) \<Rightarrow> (Failure err, w1)
      | (Panic, w1) \<Rightarrow> (Panic, w1)
      | (Return blobReader, w1) \<Rightarrow>
          (let d = Descriptor blobReader
           in case Close blobReader w1 of
                (Panic, w2) \<Rightarrow> (Panic, w2)
              | (_, w2) \<Rightarrow> (Return d, w2)))"

section \<open>Repository and tag enumeration\<close>

text \<open>
  Parsed references of the \<^verbatim>\<open>reference/docker\<close> package, by their dynamic types: a
  \<open>named\<close> reference has a repository name; it may carry a tag, a digest, or both. The
  interfaces \<^verbatim>\<open>Tagged\<close> and \<^verbatim>\<open>Digested\<close> are the type assertions below.
\<close>

datatype named =
  repository string
| taggedReference string string
| canonicalReference string digest
| reference string string digest

datatype Reference = Named named | digestReference digest

fun named_Name :: "named \<Rightarrow> string" where
  "named_Name (repository n) = n"
| "named_Name (taggedReference n t) = n"
| "named_Name (canonicalReference n d) = n"
| "named_Name (reference n t d) = n"

fun as_Digested :: "Reference \<Rightarrow> digest option" where
  "as_Digested (Named (canonicalReference n d)) = Some d"
| "as_Digested (Named (reference n t d)) = Some d"
| "as_Digested (digestReference d) = Some d"
| "as_Digested _ = None"

fun as_Tagged :: "Reference \<Rightarrow> string option" where
  "as_Tagged (Named (taggedReference n t)) = Some t"
| "as_Tagged (Named (reference n t d)) = Some t"
| "as_Tagged _ = None"

fun Reference_String :: "Reference \<Rightarrow> string" where
  "Reference_String (Named (repository n)) = n"
| "Reference_String (Named (taggedReference n t)) = n @ '':'' @ t"
| "Reference_String (Named (canonicalReference n d)) = n @ ''@'' @ d"
| "Reference_String (Named (reference n t d)) = n @ '':'' @ t @ ''@'' @ d"
| "Reference_String (digestReference d) = d"

datatype 'a Iter = ErrorIter error | SliceIter "'a list"

text \<open>
  The loop of \<^verbatim>\<open>Repositories\<close> over the listed images, \<open>names\<close> being the slice built so
  far. The parser (\<^verbatim>\<open>docker.ParseNormalizedNamed\<close>) is a parameter; \<open>None\<close> is its error.
\<close>

fun Repositories_loop :: "(string \<Rightarrow> named option) \<Rightarrow> image list \<Rightarrow> string list \<Rightarrow> string list" where
  "Repositories_loop ParseNormalizedNamed [] names = names"
| "Repositories_loop ParseNormalizedNamed (img # rest) names =
     (case ParseNormalizedNamed (Name img) of
        None \<Rightarrow> Repositories_loop ParseNormalizedNamed rest names
      | Some ref \<Rightarrow>
          (let repo = named_Name ref
           in if length names > 0 \<and> names ! (length names - 1) = repo
              then Repositories_loop ParseNormalizedNamed rest names
              else Repositories_loop ParseNormalizedNamed rest (names @ [repo])))"

definition Repositories :: "(string \<Rightarrow> named option) \<Rightarrow> world \<Rightarrow> string Iter" where
  "Repositories ParseNormalizedNamed w =
     (case ImageService_List w [] of
        Inl err \<Rightarrow> ErrorIter err
      | Inr imgs \<Rightarrow> SliceIter (Repositories_loop ParseNormalizedNamed imgs []))"

text \<open>The loop of \<^verbatim>\<open>Tags\<close>; the parser (\<^verbatim>\<open>docker.Parse\<close>) is a parameter.\<close>

fun Tags_loop :: "(string \<Rightarrow> Reference option) \<Rightarrow> image list \<Rightarrow> string list \<Rightarrow> string list" where
  "Tags_loop Parse [] tags = tags"
| "Tags_loop Parse (img # rest) tags =
     (case Parse (Name img) of
        None \<Rightarrow> Tags_loop Parse rest tags
      | Some ref \<Rightarrow>
          (case as_Digested ref of
             Some d \<Rightarrow> Tags_loop Parse rest tags
           | None \<Rightarrow>
               (case as_Tagged ref of
                  Some t \<Rightarrow> Tags_loop Parse rest (tags @ [t])
                | None \<Rightarrow> Tags_loop Parse rest tags)))"

definition Tags :: "(string \<Rightarrow> Reference option) \<Rightarrow> string \<Rightarrow> world \<Rightarrow> string Iter" where
  "Tags Parse repo w =
     (case ImageService_List w [NameMatchesAnchored (repo @ '':'')] of
        Inl err \<Rightarrow> ErrorIter err
      | Inr imgs \<Rightarrow> SliceIter (Tags_loop Parse imgs []))"

section \<open>A reference parser and a manifest decoder to run the operations on\<close>

text \<open>
  The enumerations and \<^verbatim>\<open>GetManifest\<close> take the library's parsers and decoder as
  parameters, so what is proved of them holds whatever these functions answer. To run
  them on concrete catalogs and blobs, this section writes out the reference grammar of
  \<^verbatim>\<open>reference/docker\<close> (a name of slash-separated lower-case components with an optional
  leading domain, then an optional \<^verbatim>\<open>:tag\<close>, then an optional \<^verbatim>\<open>@digest\<close>), its
  normalisation of familiar names, and a decoder for the manifests used in the examples.
\<close>

definition is_lower :: "char \<Rightarrow> bool" where
  "is_lower c = (CHR ''a'' \<le> c \<and> c \<le> CHR ''z'')"

definition is_upper :: "char \<Rightarrow> bool" where
  "is_upper c = (CHR ''A'' \<le> c \<and> c \<le> CHR ''Z'')"

definition is_digit :: "char \<Rightarrow> bool" where
  "is_digit c = (CHR ''0'' \<le> c \<and> c \<le> CHR ''9'')"

definition is_lower_alnum :: "char \<Rightarrow> bool" where
  "is_lower_alnum c = (is_lower c \<or> is_digit c)"

definition is_alnum :: "char \<Rightarrow> bool" where
  "is_alnum c = (is_lower c \<or> is_upper c \<or> is_digit c)"

definition is_word :: "char \<Rightarrow> bool" where
  "is_word c = (is_alnum c \<or> c = CHR ''_'')"

definition is_lower_hex :: "char \<Rightarrow> bool" where
  "is_lower_hex c = (is_digit c \<or> (CHR ''a'' \<le> c \<and> c \<le> CHR ''f''))"

text \<open>\<^verbatim>\<open>strings.Split\<close> at one separator byte.\<close>

fun split_on :: "char \<Rightarrow> string \<Rightarrow> string list" where
  "split_on sep [] = [[]]"
| "split_on sep (c # cs) =
     (if c = sep then [] # split_on sep cs
      else (case split_on sep cs of [] \<Rightarrow> [[c]] | p # ps \<Rightarrow> (c # p) # ps))"

text \<open>
  A name component is \<^verbatim>\<open>[a-z0-9]+\<close> runs joined by separators: one period, one or two
  underscores, or dashes. \<open>component_scan\<close> carries the separator read since the last
  alphanumeric byte.
\<close>

definition separator :: "string \<Rightarrow> bool" where
  "separator s = (s = ''.'' \<or> s = ''_'' \<or> s = ''__'' \<or> list_all (\<lambda>c. c = CHR ''-'') s)"

fun component_scan :: "string \<Rightarrow> string \<Rightarrow> bool" where
  "component_scan sep [] = (sep = [])"
| "component_scan sep (c # cs) =
     (if is_lower_alnum c then separator sep \<and> component_scan [] cs
      else if c = CHR ''.'' \<or> c = CHR ''_'' \<or> c = CHR ''-'' then component_scan (sep @ [c]) cs
      else False)"

definition nameComponent :: "string \<Rightarrow> bool" where
  "nameComponent s = (case s of [] \<Rightarrow> False | c # cs \<Rightarrow> is_lower_alnum c \<and> component_scan [] s)"

text \<open>
  A domain is a host, then an optional \<^verbatim>\<open>:port\<close>. A host is dot-separated components
  of letters, digits and inner dashes, or an IPv6 address in brackets (hexadecimal
  digits and colons).
\<close>

definition domainComponent :: "string \<Rightarrow> bool" where
  "domainComponent s =
     (case s of [] \<Rightarrow> False
      | c # cs \<Rightarrow> is_alnum c \<and> is_alnum (last s) \<and> list_all (\<lambda>x. is_alnum x \<or> x = CHR ''-'') s)"

definition is_hex :: "char \<Rightarrow> bool" where
  "is_hex c = (is_lower_hex c \<or> (CHR ''A'' \<le> c \<and> c \<le> CHR ''F''))"

definition port_ok :: "string \<Rightarrow> bool" where
  "port_ok rest = (case rest of [] \<Rightarrow> True | c # port \<Rightarrow> c = CHR '':'' \<and> port \<noteq> [] \<and> list_all is_digit port)"

definition domain_ok :: "string \<Rightarrow> bool" where
  "domain_ok s =
     (case s of
        [] \<Rightarrow> False
      | c # cs \<Rightarrow>
          if c = CHR ''[''
          then (let addr = takeWhile (\<lambda>x. x \<noteq> CHR '']'') cs
                in CHR '']'' \<in> set cs \<and> addr \<noteq> [] \<and>
                   list_all (\<lambda>x. is_hex x \<or> x = CHR '':'') addr \<and>
                   port_ok (drop (Suc (length addr)) cs))
          else (let host = takeWhile (\<lambda>x. x \<noteq> CHR '':'') s
                in list_all domainComponent (split_on CHR ''.'' host) \<and>
                   port_ok (drop (length host) s)))"

definition path_ok :: "string \<Rightarrow> bool" where
  "path_ok s = list_all nameComponent (split_on CHR ''/'' s)"

definition name_ok :: "string \<Rightarrow> bool" where
  "name_ok s =
     (path_ok s \<or>
      (CHR ''/'' \<in> set s \<and> domain_ok (takeWhile (\<lambda>c. c \<noteq> CHR ''/'') s) \<and>
       path_ok (tl (dropWhile (\<lambda>c. c \<noteq> CHR ''/'') s))))"

text \<open>A tag is a word byte followed by at most 127 word bytes, periods or dashes.\<close>

definition tag_ok :: "string \<Rightarrow> bool" where
  "tag_ok s =
     (case s of [] \<Rightarrow> False
      | c # cs \<Rightarrow> is_word c \<and> length cs \<le> 127 \<and>
          list_all (\<lambda>x. is_word x \<or> x = CHR ''.'' \<or> x = CHR ''-'') cs)"

text \<open>
  A digest is accepted when its algorithm is one the digest package has (\<^verbatim>\<open>sha256\<close>,
  \<^verbatim>\<open>sha384\<close>, \<^verbatim>\<open>sha512\<close>) and its lower-case hexadecimal part has that algorithm's
  length.
\<close>

definition digest_ok :: "string \<Rightarrow> bool" where
  "digest_ok s =
     (let alg = takeWhile (\<lambda>c. c \<noteq> CHR '':'') s; enc = drop (Suc (length alg)) s
      in CHR '':'' \<in> set s \<and> list_all is_lower_hex enc \<and>
         ((alg = ''sha256'' \<and> length enc = 64) \<or> (alg = ''sha384'' \<and> length enc = 96) \<or>
          (alg = ''sha512'' \<and> length enc = 128)))"

text \<open>
  \<^verbatim>\<open>docker.Parse\<close>: the digest is what follows the \<^verbatim>\<open>@\<close>; before it, a colon in the last
  slash-separated segment starts the tag (a colon of the name can only be a port, which
  a slash follows). No match is \<open>None\<close>. The result is the most specific reference type
  for the parts present.
\<close>

definition docker_Parse :: "string \<Rightarrow> Reference option" where
  "docker_Parse s =
     (let head = takeWhile (\<lambda>c. c \<noteq> CHR ''@'') s;
          dgst = (if CHR ''@'' \<in> set s then Some (drop (Suc (length head)) s) else None);
          r = rev head;
          tagged = (CHR '':'' \<in> set (takeWhile (\<lambda>c. c \<noteq> CHR ''/'') r));
          tag = (if tagged then Some (rev (takeWhile (\<lambda>c. c \<noteq> CHR '':'') r)) else None);
          name = (if tagged then rev (tl (dropWhile (\<lambda>c. c \<noteq> CHR '':'') r)) else head)
      in if \<not> name_ok name \<or> 255 < length name then None
         else (case (tag, dgst) of
                 (None, None) \<Rightarrow> Some (Named (repository name))
               | (Some t, None) \<Rightarrow> if tag_ok t then Some (Named (taggedReference name t)) else None
               | (None, Some d) \<Rightarrow> if digest_ok d then Some (Named (canonicalReference name d)) else None
               | (Some t, Some d) \<Rightarrow>
                   if tag_ok t \<and> digest_ok d then Some (Named (reference name t d)) else None))"

text \<open>
  \<^verbatim>\<open>docker.ParseNormalizedNamed\<close>: the first slash-separated component is the domain
  when it has a period, a colon or an upper-case letter or is \<^verbatim>\<open>localhost\<close>; a name
  without a domain gets \<^verbatim>\<open>docker.io\<close>, and a one-component name on \<^verbatim>\<open>docker.io\<close> gets
  the \<^verbatim>\<open>library/\<close> prefix.
\<close>

definition splitDockerDomain :: "string \<Rightarrow> string \<times> string" where
  "splitDockerDomain name =
     (let first = takeWhile (\<lambda>c. c \<noteq> CHR ''/'') name;
          (domain, remainder) =
            (if CHR ''/'' \<notin> set name \<or>
                (CHR ''.'' \<notin> set first \<and> CHR '':'' \<notin> set first \<and> first \<noteq> ''localhost'' \<and>
                 \<not> list_ex is_upper first)
             then (''docker.io'', name)
             else (first, drop (Suc (length first)) name));
          domain' = (if domain = ''index.docker.io'' then ''docker.io'' else domain)
      in if domain' = ''docker.io'' \<and> CHR ''/'' \<notin> set remainder
         then (domain', ''library/'' @ remainder) else (domain', remainder))"

definition docker_ParseNormalizedNamed :: "string \<Rightarrow> named option" where
  "docker_ParseNormalizedNamed s =
     (if length s = 64 \<and> list_all is_lower_hex s then None
      else (let (domain, remainder) = splitDockerDomain s;
                remoteName = takeWhile (\<lambda>c. c \<noteq> CHR '':'') remainder
            in if list_ex is_upper remoteName then None
               else (case docker_Parse (domain @ ''/'' @ remainder) of
                       None \<Rightarrow> None
                     | Some (digestReference d) \<Rightarrow> None
                     | Some (Named n) \<Rightarrow> Some n)))"

text \<open>
  A decoder for the documents of the examples: one JSON object whose members are
  strings without escape sequences. It goes byte by byte as the library's scanner does,
  keeps the value of the member named \<^verbatim>\<open>mediaType\<close> (the library matches the name
  without regard to case), stops at the closing brace, and counts the bytes up to
  there, a lower bound of what the library's buffered reads take. It follows the
  library on documents of that shape only: a member that is a number, a literal, an
  array or an object, an escape sequence, or a top-level \<^verbatim>\<open>null\<close> makes it answer a
  syntax error, which the library does not; no theorem below runs it on such a document.
\<close>

datatype scan_state =
  BeginValue
| BeginKeyOrEnd
| InKey string
| AfterKey string
| BeginMemberValue string
| InString string string
| AfterValue
| BeginKey

definition is_space :: "char \<Rightarrow> bool" where
  "is_space c = (c = CHR '' '' \<or> c = CHR 0x09 \<or> c = CHR 0x0A \<or> c = CHR 0x0D)"

definition to_lower :: "char \<Rightarrow> char" where
  "to_lower c =
     (case map_of (zip ''ABCDEFGHIJKLMNOPQRSTUVWXYZ'' ''abcdefghijklmnopqrstuvwxyz'') c of
        None \<Rightarrow> c
      | Some l \<Rightarrow> l)"

definition plain_char :: "char \<Rightarrow> bool" where
  "plain_char c = (CHR '' '' \<le> c \<and> c \<noteq> CHR 0x5C \<and> c \<le> CHR 0x7E)"

fun scan :: "scan_state \<Rightarrow> string \<Rightarrow> nat \<Rightarrow> bytes \<Rightarrow> (error + string) \<times> nat" where
  "scan BeginValue mt k [] = (Inl ErrEOF, k)"
| "scan st mt k [] = (Inl ErrUnexpectedEOF, k)"
| "scan BeginValue mt k (c # cs) =
     (if is_space c then scan BeginValue mt (Suc k) cs
      else if c = CHR ''{'' then scan BeginKeyOrEnd mt (Suc k) cs
      else (Inl ErrSyntax, Suc k))"
| "scan BeginKeyOrEnd mt k (c # cs) =
     (if is_space c then scan BeginKeyOrEnd mt (Suc k) cs
      else if c = CHR ''}'' then (Inr mt, Suc k)
      else if c = CHR 0x22 then scan (InKey []) mt (Suc k) cs
      else (Inl ErrSyntax, Suc k))"
| "scan BeginKey mt k (c # cs) =
     (if is_space c then scan BeginKey mt (Suc k) cs
      else if c = CHR 0x22 then scan (InKey []) mt (Suc k) cs
      else (Inl ErrSyntax, Suc k))"
| "scan (InKey key) mt k (c # cs) =
     (if c = CHR 0x22 then scan (AfterKey key) mt (Suc k) cs
      else if plain_char c then scan (InKey (key @ [c])) mt (Suc k) cs
      else (Inl ErrSyntax, Suc k))"
| "scan (AfterKey key) mt k (c # cs) =
     (if is_space c then scan (AfterKey key) mt (Suc k) cs
      else if c = CHR '':'' then scan (BeginMemberValue key) mt (Suc k) cs
      else (Inl ErrSyntax, Suc k))"
| "scan (BeginMemberValue key) mt k (c # cs) =
     (if is_space c then scan (BeginMemberValue key) mt (Suc k) cs
      else if c = CHR 0x22 then scan (InString key []) mt (Suc k) cs
      else (Inl ErrSyntax, Suc k))"
| "scan (InString key v) mt k (c # cs) =
     (if c = CHR 0x22
      then scan AfterValue (if map to_lower key = ''mediatype'' then v else mt) (Suc k) cs
      else if plain_char c then scan (InString key (v @ [c])) mt (Suc k) cs
      else (Inl ErrSyntax, Suc k))"
| "scan AfterValue mt k (c # cs) =
     (if is_space c then scan AfterValue mt (Suc k) cs
      else if c = CHR '','' then scan BeginKey mt (Suc k) cs
      else if c = CHR ''}'' then (Inr mt, Suc k)
      else (Inl ErrSyntax, Suc k))"

definition Decode_mediaType :: decoder where
  "Decode_mediaType b = scan BeginValue [] 0 b"

text \<open>
  A mock world: a store holding the given blobs (not-found for every other digest), a
  catalog listing the given images, no reader opened yet.
\<close>

definition mock_world :: "(digest \<times> bytes) list \<Rightarrow> image list \<Rightarrow> world" where
  "mock_world bs imgs =
     \<lparr>blobs = (\<lambda>d. case map_of bs d of None \<Rightarrow> Inl ErrNotFound | Some b \<Rightarrow> Inr b),
      images = Inr imgs, opened = 0, closed = [], reclose = None, nread = 0\<rparr>"

text \<open>
  A family of manifests of growing length: the declared media type is \<open>n\<close> bytes long,
  the document \<open>n + 16\<close>.
\<close>

definition padded_manifest :: "nat \<Rightarrow> bytes" where
  \<open>padded_manifest n = ''{"mediaType":"'' @ replicate n (CHR ''a'') @ ''"}''\<close>

text \<open>
  An example world. The store holds an untyped blob of 42 bytes, a manifest that
  declares its media type, a document that declares none and one that declares an
  empty one. The catalog, sorted by name, has two tags of \<^verbatim>\<open>docker.io/a/b\<close> (the target
  of the second is not in the store) and a digest reference of \<^verbatim>\<open>docker.io/c/d\<close>.
\<close>

definition blob_D :: digest where
  "blob_D = ''sha256:4a1c4b21597c1b4415bdbecb28a3296c6b5e23ca4f9feeb599860a1dac6a0108''"

definition manifest_M :: digest where
  "manifest_M = ''sha256:9b2a28eb47540823042a2ba401386845089bb7b62a9637d55816132c4c3c36eb''"

definition untyped_M :: digest where
  "untyped_M = ''sha256:1f0c3e5a9d7b48e2a6c4d8f0b2e6a1c3d5f7092b4d6f8a0c2e4f6a8b0c2d4e6f''"

definition empty_M :: digest where
  "empty_M = ''sha256:e3b0c44298fc1c149afbf4c8996fb92427ae41e4649b934ca495991b7852b855''"

definition example_catalog :: "image list" where
  "example_catalog =
     [\<lparr>Name = ''docker.io/a/b:v1'',
       Target = \<lparr>MediaType = ''application/vnd.oci.image.manifest.v1+json'',
                 Digest = manifest_M, Size = 58\<rparr>\<rparr>,
      \<lparr>Name = ''docker.io/a/b:v2'',
       Target = \<lparr>MediaType = ''application/vnd.oci.image.index.v1+json'',
                 Digest = ''sha256:gone'', Size = 7\<rparr>\<rparr>,
      \<lparr>Name = ''docker.io/c/d@sha256:4a1c4b21597c1b4415bdbecb28a3296c6b5e23ca4f9feeb599860a1dac6a0108'',
       Target = \<lparr>MediaType = [], Digest = blob_D, Size = 0\<rparr>\<rparr>]"

definition example_world :: world where
  \<open>example_world =
     mock_world
       [(blob_D, replicate 42 (CHR ''x'')),
        (manifest_M, ''{"mediaType":"application/vnd.oci.image.manifest.v1+json"}''),
        (untyped_M, ''{"schemaVersion":"2"}''),
        (empty_M, ''{"mediaType":""}'')]
       example_catalog\<close>

text \<open>
  Two more catalogs, both sorted by name: in the first a repository whose name
  continues another's with a dash comes before it (a dash sorts before the colon); in
  the second a familiar name and its normalised form are apart.
\<close>

definition dash_catalog :: "image list" where
  "dash_catalog =
     [\<lparr>Name = ''docker.io/a/b-c:v1'', Target = \<lparr>MediaType = [], Digest = blob_D, Size = 0\<rparr>\<rparr>,
      \<lparr>Name = ''docker.io/a/b:v1'', Target = \<lparr>MediaType = [], Digest = blob_D, Size = 0\<rparr>\<rparr>]"

definition familiar_catalog :: "image list" where
  "familiar_catalog =
     [\<lparr>Name = ''docker.io/library/ubuntu:a'', Target = \<lparr>MediaType = [], Digest = blob_D, Size = 0\<rparr>\<rparr>,
      \<lparr>Name = ''quay.io/x:b'', Target = \<lparr>MediaType = [], Digest = blob_D, Size = 0\<rparr>\<rparr>,
      \<lparr>Name = ''ubuntu:c'', Target = \<lparr>MediaType = [], Digest = blob_D, Size = 0\<rparr>\<rparr>]"

text \<open>A catalog with one image on a registry with a port.\<close>

definition port_catalog :: "image list" where
  "port_catalog =
     [\<lparr>Name = ''localhost:5000/foo:v1'', Target = \<lparr>MediaType = [], Digest = blob_D, Size = 0\<rparr>\<rparr>]"

text \<open>
  The repository names the parser gives for the images, in catalog order, names that
  do not parse left out.
\<close>

definition parsed_repositories :: "(string \<Rightarrow> named option) \<Rightarrow> image list \<Rightarrow> string list" where
  "parsed_repositories P imgs = map named_Name (List.map_filter P (map Name imgs))"

text \<open>An image whose name does not parse as a reference with a digest.\<close>

definition not_digest_form :: "(string \<Rightarrow> Reference option) \<Rightarrow> image \<Rightarrow> bool" where
  "not_digest_form P img = (case P (Name img) of None \<Rightarrow> True | Some r \<Rightarrow> as_Digested r = None)"

section \<open>Blob Stream: closing\<close>

lemma Close_nil_readerAt: "readerAt br = None \<Longrightarrow> Close br w = (Panic, w)"
  by (simp add: Close_def)

lemma validate_keeps_readers:
  "validate w br = (r, br') \<Longrightarrow> readerAt br' = readerAt br \<and> reader br' = reader br"
  by (auto simp: validate_def Let_def split: sum.splits if_splits)

lemma constructed_unopened:
  assumes "newContainerdBlobReaderFromDescriptor d w = (Return br, w')"
  shows "readerAt br = None \<and> reader br = None \<and> w' = w"
  using assms
  by (auto simp: newContainerdBlobReaderFromDescriptor_def Let_def Close_def
      split: prod.splits option.splits outcome.splits dest: validate_keeps_readers)

lemma constructor_absent_digest:
  assumes "blobs w (Digest d) = Inl err"
  shows "newContainerdBlobReaderFromDescriptor d w = (Panic, w)"
  using assms
  by (simp add: newContainerdBlobReaderFromDescriptor_def validate_def ContentStore_Info_def
      Close_def)

lemma GetTag_unopened:
  "GetTag repo t w = (Return br, w') \<Longrightarrow> readerAt br = None \<and> w' = w"
  by (auto simp: GetTag_def split: sum.splits)

lemma GetManifest_unopened:
  assumes "GetManifest Decode repo dgst w = (Return br, w')"
  shows "readerAt br = None"
  using assms
  by (auto simp: GetManifest_def Let_def ContentStore_ReaderAt_def
      split: prod.splits sum.splits if_splits dest: constructed_unopened)

text \<open>
  Once a first \<^verbatim>\<open>Read\<close> has opened the store reader, \<^verbatim>\<open>Close\<close> closes it and returns
  nil, and no reader is left open; the store never has a closed handle it has not handed
  out, which is the last premise.
\<close>

lemma Close_after_first_Read:
  assumes "readerAt br = None" and "reader br = None"
    and "Read br n w = (Return r, br', w')"
    and "\<forall>h\<in>set (closed w). h < opened w"
  shows "fst (Close br' w') = Return () \<and>
         open_readers (snd (Close br' w')) = open_readers w"
proof (cases "blobs w (Digest (desc br))")
  case (Inl err)
  with assms(1-3) show ?thesis
    by (simp add: Read_def ensureReader_def ensureReaderAt_def ContentStore_ReaderAt_def)
next
  case (Inr b)
  let ?ra = "\<lparr>handle = opened w, ra_bytes = b\<rparr>"
  from Inr assms(1-3) have br': "readerAt br' = Some ?ra"
    by (auto simp: Read_def ensureReader_def ensureReaderAt_def ContentStore_ReaderAt_def
        Let_def split: if_splits)
  from Inr assms(1-3) have o: "opened w' = Suc (opened w)" and c: "closed w' = closed w"
    by (auto simp: Read_def ensureReader_def ensureReaderAt_def ContentStore_ReaderAt_def
        Let_def split: if_splits)
  from assms(4) have fresh: "opened w \<notin> set (closed w)" by auto
  from br' c fresh have "fst (Close br' w') = Return ()"
    by (simp add: Close_def ReaderAt_Close_def)
  moreover have "filter (\<lambda>h. h \<noteq> opened w \<and> h \<notin> set (closed w)) [0..<opened w] =
                 filter (\<lambda>h. h \<notin> set (closed w)) [0..<opened w]"
    by (rule filter_cong) auto
  with br' o c fresh have "open_readers (snd (Close br' w')) = open_readers w"
    by (simp add: Close_def ReaderAt_Close_def open_readers_def)
  ultimately show ?thesis by simp
qed

text \<open>
  C1 (defect of the code). The claim is that \<^verbatim>\<open>Close\<close> before any \<^verbatim>\<open>Read\<close> succeeds, and
  succeeds again when repeated. On the code, a stream as its constructor returns it has
  a nil \<open>readerAt\<close>, and \<^verbatim>\<open>Close\<close> calls a method on it: the first \<^verbatim>\<open>Close\<close> panics, and so
  does a second one.
\<close>

theorem Close_before_Read_panics:
  "newContainerdBlobReaderFromDescriptor d w = (Return br, w') \<Longrightarrow>
     Close br w' = (Panic, w') \<and> fst (Close br (snd (Close br w'))) = Panic"
proof -
  assume "newContainerdBlobReaderFromDescriptor d w = (Return br, w')"
  then have "readerAt br = None" by (simp add: constructed_unopened)
  then show ?thesis by (simp add: Close_nil_readerAt)
qed

theorem Close_before_Read_panics_witness:
  "newContainerdBlobReaderFromDescriptor \<lparr>MediaType = [], Digest = blob_D, Size = 0\<rparr> example_world =
     (Return \<lparr>desc = \<lparr>MediaType = ''application/octet-stream'', Digest = blob_D, Size = 42\<rparr>,
              readerAt = None, reader = None\<rparr>, example_world) \<and>
   Close \<lparr>desc = \<lparr>MediaType = ''application/octet-stream'', Digest = blob_D, Size = 42\<rparr>,
          readerAt = None, reader = None\<rparr> example_world = (Panic, example_world)"
proof -
  have h: "newContainerdBlobReaderFromDescriptor \<lparr>MediaType = [], Digest = blob_D, Size = 0\<rparr>
             example_world =
           (Return \<lparr>desc = \<lparr>MediaType = ''application/octet-stream'', Digest = blob_D, Size = 42\<rparr>,
                    readerAt = None, reader = None\<rparr>, example_world)"
    by (simp add: newContainerdBlobReaderFromDescriptor_def validate_def ContentStore_Info_def
        example_world_def mock_world_def blob_D_def)
  from Close_before_Read_panics[OF h] h show ?thesis by simp
qed

text \<open>
  C2 (defect of the code). The claim is that \<^verbatim>\<open>GetBlob\<close> of a digest the store does not
  have returns the store's error. On the code the constructor, holding that error, calls
  \<^verbatim>\<open>br.Close()\<close> on the stream it has not opened, and the call panics: the caller gets the
  panic, not the error. No store reader was opened on the way.
\<close>

theorem GetBlob_absent_digest_panics:
  "blobs w dgst = Inl err \<Longrightarrow>
     GetBlob repo dgst w = (Panic, w) \<and>
     open_readers (snd (GetBlob repo dgst w)) = open_readers w"
proof -
  assume "blobs w dgst = Inl err"
  then have "newContainerdBlobReaderFromDescriptor \<lparr>MediaType = [], Digest = dgst, Size = 0\<rparr> w =
      (Panic, w)"
    by (simp add: constructor_absent_digest)
  then show ?thesis
    by (simp add: GetBlob_def newContainerdBlobReaderFromDigest_def)
qed

theorem GetBlob_absent_digest_panics_witness:
  "blobs example_world ''sha256:unknown'' = Inl ErrNotFound \<and>
   GetBlob ''a/b'' ''sha256:unknown'' example_world = (Panic, example_world)"
proof -
  have h: "blobs example_world ''sha256:unknown'' = Inl ErrNotFound"
    by (simp add: example_world_def mock_world_def blob_D_def manifest_M_def untyped_M_def
        empty_M_def)
  from GetBlob_absent_digest_panics[OF h, of "''a/b''"] h show ?thesis by simp
qed

text \<open>
  C3 (defect of the code). The claim is that the resolve operations return the
  descriptor of the stream they opened. On the code, whenever the get operation
  succeeds its stream has a nil \<open>readerAt\<close>, the deferred \<^verbatim>\<open>Close\<close> panics, and the
  resolve operation panics with it.
\<close>

theorem Resolve_panics_when_Get_succeeds:
  "(fst (GetBlob repo dgst w) = Return br1 \<longrightarrow>
      ResolveBlob repo dgst w = (Panic, snd (GetBlob repo dgst w))) \<and>
   (fst (GetManifest Decode repo dgst w) = Return br2 \<longrightarrow>
      ResolveManifest Decode repo dgst w = (Panic, snd (GetManifest Decode repo dgst w))) \<and>
   (fst (GetTag repo tagName w) = Return br3 \<longrightarrow>
      ResolveTag repo tagName w = (Panic, snd (GetTag repo tagName w)))"
proof (intro conjI impI)
  assume "fst (GetBlob repo dgst w) = Return br1"
  then obtain w' where g: "GetBlob repo dgst w = (Return br1, w')"
    by (cases "GetBlob repo dgst w") simp
  then have "readerAt br1 = None"
    by (simp add: GetBlob_def newContainerdBlobReaderFromDigest_def constructed_unopened)
  with g show "ResolveBlob repo dgst w = (Panic, snd (GetBlob repo dgst w))"
    by (simp add: ResolveBlob_def Close_nil_readerAt)
next
  assume "fst (GetManifest Decode repo dgst w) = Return br2"
  then obtain w' where g: "GetManifest Decode repo dgst w = (Return br2, w')"
    by (cases "GetManifest Decode repo dgst w") simp
  then have "readerAt br2 = None" by (rule GetManifest_unopened)
  with g show "ResolveManifest Decode repo dgst w = (Panic, snd (GetManifest Decode repo dgst w))"
    by (simp add: ResolveManifest_def Close_nil_readerAt)
next
  assume "fst (GetTag repo tagName w) = Return br3"
  then obtain w' where g: "GetTag repo tagName w = (Return br3, w')"
    by (cases "GetTag repo tagName w") simp
  then have "readerAt br3 = None" by (simp add: GetTag_unopened)
  with g show "ResolveTag repo tagName w = (Panic, snd (GetTag repo tagName w))"
    by (simp add: ResolveTag_def Close_nil_readerAt)
qed

theorem Resolve_panics_when_Get_succeeds_witness:
  "fst (GetBlob ''a/b'' blob_D example_world) =
     Return \<lparr>desc = \<lparr>MediaType = ''application/octet-stream'', Digest = blob_D, Size = 42\<rparr>,
             readerAt = None, reader = None\<rparr> \<and>
   fst (ResolveBlob ''a/b'' blob_D example_world) = Panic \<and>
   fst (GetManifest Decode_mediaType ''a/b'' manifest_M example_world) =
     Return \<lparr>desc = \<lparr>MediaType = ''application/vnd.oci.image.manifest.v1+json'',
                      Digest = manifest_M, Size = 58\<rparr>,
             readerAt = None, reader = None\<rparr> \<and>
   fst (ResolveManifest Decode_mediaType ''a/b'' manifest_M example_world) = Panic \<and>
   fst (GetTag ''docker.io/a/b'' ''v1'' example_world) =
     Return \<lparr>desc = \<lparr>MediaType = ''application/vnd.oci.image.manifest.v1+json'',
                      Digest = manifest_M, Size = 58\<rparr>,
             readerAt = None, reader = None\<rparr> \<and>
   fst (ResolveTag ''docker.io/a/b'' ''v1'' example_world) = Panic"
proof -
  let ?b = "\<lparr>desc = \<lparr>MediaType = ''application/octet-stream'', Digest = blob_D, Size = 42\<rparr>,
             readerAt = None, reader = None\<rparr>"
  let ?m = "\<lparr>desc = \<lparr>MediaType = ''application/vnd.oci.image.manifest.v1+json'',
                      Digest = manifest_M, Size = 58\<rparr>,
             readerAt = None, reader = None\<rparr>"
  have b: "fst (GetBlob ''a/b'' blob_D example_world) = Return ?b"
    by code_simp
  have m: "fst (GetManifest Decode_mediaType ''a/b'' manifest_M example_world) = Return ?m"
    by code_simp
  have t: "fst (GetTag ''docker.io/a/b'' ''v1'' example_world) = Return ?m"
    by code_simp
  note r = Resolve_panics_when_Get_succeeds[where repo = "''a/b''" and dgst = blob_D
      and w = example_world and ?br1.0 = ?b]
  note s = Resolve_panics_when_Get_succeeds[where repo = "''a/b''" and dgst = manifest_M
      and w = example_world and Decode = Decode_mediaType and ?br2.0 = ?m]
  note u = Resolve_panics_when_Get_succeeds[where repo = "''docker.io/a/b''"
      and tagName = "''v1''" and w = example_world and ?br3.0 = ?m]
  from r b have "fst (ResolveBlob ''a/b'' blob_D example_world) = Panic" by simp
  moreover from s m have "fst (ResolveManifest Decode_mediaType ''a/b'' manifest_M example_world) = Panic"
    by simp
  moreover from u t have "fst (ResolveTag ''docker.io/a/b'' ''v1'' example_world) = Panic"
    by simp
  ultimately show ?thesis using b m t by simp
qed

section \<open>Descriptor completion\<close>

text \<open>
  C7. For every digest the store holds, \<^verbatim>\<open>GetBlob\<close> succeeds and its stream's descriptor
  has that digest, the size the store records for it and the media type
  \<^verbatim>\<open>application/octet-stream\<close>; no reader is opened. With a blob of 42 bytes this is the
  descriptor of the claim.
\<close>

theorem GetBlob_completes_descriptor:
  "blobs w dgst = Inr b \<Longrightarrow>
     GetBlob repo dgst w =
       (Return \<lparr>desc = \<lparr>MediaType = ''application/octet-stream'', Digest = dgst,
                        Size = int (length b)\<rparr>,
                readerAt = None, reader = None\<rparr>, w)"
proof -
  assume s: "blobs w dgst = Inr b"
  let ?br = "\<lparr>desc = \<lparr>MediaType = [], Digest = dgst, Size = 0\<rparr>, readerAt = None, reader = None\<rparr>"
  from s have i: "ContentStore_Info w dgst = Inr (int (length b))"
    by (simp add: ContentStore_Info_def)
  have "validate w ?br =
      (None, \<lparr>desc = \<lparr>MediaType = ''application/octet-stream'', Digest = dgst,
                       Size = int (length b)\<rparr>, readerAt = None, reader = None\<rparr>)"
  proof (cases "b = []")
    case True
    with i show ?thesis by (simp add: validate_def)
  next
    case False
    with i show ?thesis by (simp add: validate_def)
  qed
  then show ?thesis
    by (simp add: GetBlob_def newContainerdBlobReaderFromDigest_def
        newContainerdBlobReaderFromDescriptor_def)
qed

theorem GetBlob_completes_descriptor_witness:
  "blobs example_world blob_D = Inr (replicate 42 (CHR ''x'')) \<and>
   GetBlob ''a/b'' blob_D example_world =
     (Return \<lparr>desc = \<lparr>MediaType = ''application/octet-stream'', Digest = blob_D, Size = 42\<rparr>,
              readerAt = None, reader = None\<rparr>, example_world)"
proof -
  have h: "blobs example_world blob_D = Inr (replicate 42 (CHR ''x''))"
    by (simp add: example_world_def mock_world_def)
  from GetBlob_completes_descriptor[OF h, of "''a/b''"] h show ?thesis by simp
qed

text \<open>
  C9. Descriptor completion leaves a stream whose descriptor has a nonzero size and a
  nonempty media type as it is (whether or not the store has the digest), and
  completing the result of a successful completion again succeeds and changes nothing.
\<close>

theorem validate_idempotent:
  "(Size (desc br) \<noteq> 0 \<and> MediaType (desc br) \<noteq> [] \<longrightarrow> snd (validate w br) = br) \<and>
   (validate w br = (None, br') \<longrightarrow> validate w br' = (None, br'))"
proof (intro conjI impI)
  assume "Size (desc br) \<noteq> 0 \<and> MediaType (desc br) \<noteq> []"
  then show "snd (validate w br) = br"
    by (simp add: validate_def split: sum.splits)
next
  assume v: "validate w br = (None, br')"
  then obtain sz where i: "ContentStore_Info w (Digest (desc br)) = Inr sz"
    by (auto simp: validate_def split: sum.splits)
  from v i have d: "Digest (desc br') = Digest (desc br)"
    by (auto simp: validate_def Let_def split: if_splits)
  from v i have m: "MediaType (desc br') \<noteq> []"
    by (auto simp: validate_def Let_def split: if_splits)
  from v i have s: "Size (desc br') = 0 \<longrightarrow> sz = 0"
    by (auto simp: validate_def Let_def split: if_splits)
  from i d m s show "validate w br' = (None, br')"
    by (auto simp: validate_def Let_def)
qed

theorem validate_idempotent_witness:
  "snd (validate example_world
          \<lparr>desc = \<lparr>MediaType = ''text/plain'', Digest = blob_D, Size = 7\<rparr>,
           readerAt = None, reader = None\<rparr>) =
     \<lparr>desc = \<lparr>MediaType = ''text/plain'', Digest = blob_D, Size = 7\<rparr>,
      readerAt = None, reader = None\<rparr> \<and>
   validate example_world
     \<lparr>desc = \<lparr>MediaType = [], Digest = blob_D, Size = 0\<rparr>, readerAt = None, reader = None\<rparr> =
     (None, \<lparr>desc = \<lparr>MediaType = ''application/octet-stream'', Digest = blob_D, Size = 42\<rparr>,
             readerAt = None, reader = None\<rparr>) \<and>
   validate example_world
     \<lparr>desc = \<lparr>MediaType = ''application/octet-stream'', Digest = blob_D, Size = 42\<rparr>,
      readerAt = None, reader = None\<rparr> =
     (None, \<lparr>desc = \<lparr>MediaType = ''application/octet-stream'', Digest = blob_D, Size = 42\<rparr>,
             readerAt = None, reader = None\<rparr>)"
proof -
  let ?c = "\<lparr>desc = \<lparr>MediaType = ''text/plain'', Digest = blob_D, Size = 7\<rparr>,
            readerAt = None, reader = None\<rparr>"
  let ?d = "\<lparr>desc = \<lparr>MediaType = [], Digest = blob_D, Size = 0\<rparr>,
            readerAt = None, reader = None\<rparr>"
  let ?e = "\<lparr>desc = \<lparr>MediaType = ''application/octet-stream'', Digest = blob_D, Size = 42\<rparr>,
            readerAt = None, reader = None\<rparr>"
  have v: "validate example_world ?d = (None, ?e)"
    by (simp add: validate_def ContentStore_Info_def example_world_def mock_world_def)
  from validate_idempotent[of ?c example_world] have "snd (validate example_world ?c) = ?c"
    by simp
  moreover from validate_idempotent[of ?d example_world ?e] v
  have "validate example_world ?e = (None, ?e)" by simp
  ultimately show ?thesis using v by simp
qed

section \<open>Tag resolver\<close>

lemma find_by_Name:
  "distinct (map Name imgs) \<Longrightarrow> img \<in> set imgs \<Longrightarrow>
     find (\<lambda>i. Name i = Name img) imgs = Some img"
  by (induction imgs) (auto simp: image_iff)

lemma find_absent_Name:
  "n \<notin> Name ` set imgs \<Longrightarrow> find (\<lambda>i. Name i = n) imgs = None"
  by (induction imgs) auto

text \<open>
  C10. In a catalog of distinct names, when \<open>repo:tag\<close> names an entry \<^verbatim>\<open>GetTag\<close> returns
  an unopened stream whose descriptor is that entry's target as it stands, and leaves
  the world as it was (nothing is opened or read); when no entry has that name it fails
  with the catalog's not-found error. Its result is the same whatever the store holds,
  so no completion against the store takes place and an absent target digest does not
  make it fail.
\<close>

theorem GetTag_wraps_catalog_target:
  assumes "images w = Inr imgs" and "distinct (map Name imgs)"
  shows "(img \<in> set imgs \<and> Name img = repo @ '':'' @ tagName \<longrightarrow>
           GetTag repo tagName w =
             (Return \<lparr>desc = Target img, readerAt = None, reader = None\<rparr>, w)) \<and>
         (repo @ '':'' @ tagName \<notin> Name ` set imgs \<longrightarrow>
           GetTag repo tagName w = (Failure ErrNotFound, w)) \<and>
         fst (GetTag repo tagName (w\<lparr>blobs := store\<rparr>)) = fst (GetTag repo tagName w)"
proof (intro conjI impI)
  assume a: "img \<in> set imgs \<and> Name img = repo @ '':'' @ tagName"
  with assms(2) have "find (\<lambda>i. Name i = repo @ '':'' @ tagName) imgs = Some img"
    using find_by_Name[of imgs img] by simp
  with assms(1) show "GetTag repo tagName w =
      (Return \<lparr>desc = Target img, readerAt = None, reader = None\<rparr>, w)"
    by (simp add: GetTag_def ImageService_Get_def)
next
  assume "repo @ '':'' @ tagName \<notin> Name ` set imgs"
  then have "find (\<lambda>i. Name i = repo @ '':'' @ tagName) imgs = None"
    by (rule find_absent_Name)
  with assms(1) show "GetTag repo tagName w = (Failure ErrNotFound, w)"
    by (simp add: GetTag_def ImageService_Get_def)
next
  show "fst (GetTag repo tagName (w\<lparr>blobs := store\<rparr>)) = fst (GetTag repo tagName w)"
    by (simp add: GetTag_def ImageService_Get_def split: sum.splits option.splits)
qed

theorem GetTag_wraps_catalog_target_witness:
  "images example_world = Inr example_catalog \<and> distinct (map Name example_catalog) \<and>
   blobs example_world ''sha256:gone'' = Inl ErrNotFound \<and>
   GetTag ''docker.io/a/b'' ''v2'' example_world =
     (Return \<lparr>desc = \<lparr>MediaType = ''application/vnd.oci.image.index.v1+json'',
                      Digest = ''sha256:gone'', Size = 7\<rparr>,
              readerAt = None, reader = None\<rparr>, example_world) \<and>
   GetTag ''docker.io/a/b'' ''v3'' example_world = (Failure ErrNotFound, example_world)"
proof -
  let ?v2 = "\<lparr>Name = ''docker.io/a/b:v2'',
              Target = \<lparr>MediaType = ''application/vnd.oci.image.index.v1+json'',
                        Digest = ''sha256:gone'', Size = 7\<rparr>\<rparr>"
  have i: "images example_world = Inr example_catalog"
    by (simp add: example_world_def mock_world_def)
  have d: "distinct (map Name example_catalog)"
    by (simp add: example_catalog_def)
  have g: "blobs example_world ''sha256:gone'' = Inl ErrNotFound"
    by (simp add: example_world_def mock_world_def blob_D_def manifest_M_def untyped_M_def
        empty_M_def)
  have m: "?v2 \<in> set example_catalog" by (simp add: example_catalog_def)
  have a: "''docker.io/a/b'' @ '':'' @ ''v3'' \<notin> Name ` set example_catalog"
    by (simp add: example_catalog_def)
  from GetTag_wraps_catalog_target[OF i d, of ?v2 "''docker.io/a/b''" "''v2''"] m
  have "GetTag ''docker.io/a/b'' ''v2'' example_world =
          (Return \<lparr>desc = Target ?v2, readerAt = None, reader = None\<rparr>, example_world)"
    by simp
  moreover from GetTag_wraps_catalog_target[OF i d, of _ "''docker.io/a/b''" "''v3''"] a
  have "GetTag ''docker.io/a/b'' ''v3'' example_world = (Failure ErrNotFound, example_world)"
    by simp
  ultimately show ?thesis using i d g by simp
qed

section \<open>Manifest media-type sniffer\<close>

lemma GetManifest_present:
  assumes "blobs w dgst = Inr b" and "Decode b = (Inr mt, k)"
  shows "GetManifest Decode repo dgst w =
      ((if mt = [] then Failure (ErrorString ''failed to parse mediaType'')
        else Return \<lparr>desc = \<lparr>MediaType = mt, Digest = dgst, Size = int (length b)\<rparr>,
                     readerAt = None, reader = None\<rparr>),
       w\<lparr>opened := Suc (opened w), nread := nread w + k, closed := closed w @ [opened w]\<rparr>)"
proof (cases "mt = []")
  case True
  with assms show ?thesis
    by (simp add: GetManifest_def ContentStore_ReaderAt_def ReaderAt_Close_def)
next
  case False
  let ?w2 = "w\<lparr>opened := Suc (opened w), nread := nread w + k\<rparr>"
  let ?d = "\<lparr>MediaType = mt, Digest = dgst, Size = int (length b)\<rparr>"
  from assms(1) have "ContentStore_Info ?w2 dgst = Inr (int (length b))"
    by (simp add: ContentStore_Info_def)
  with False have "newContainerdBlobReaderFromDescriptor ?d ?w2 =
      (Return \<lparr>desc = ?d, readerAt = None, reader = None\<rparr>, ?w2)"
    by (simp add: newContainerdBlobReaderFromDescriptor_def validate_def)
  with False assms show ?thesis
    by (simp add: GetManifest_def ContentStore_ReaderAt_def ReaderAt_Close_def ReaderAt_Size_def)
qed


lemma GetManifest_undecodable:
  "blobs w dgst = Inr b \<Longrightarrow> Decode b = (Inl err, k) \<Longrightarrow>
     GetManifest Decode repo dgst w =
       (Failure err,
        w\<lparr>opened := Suc (opened w), nread := nread w + k, closed := closed w @ [opened w]\<rparr>)"
  by (simp add: GetManifest_def ContentStore_ReaderAt_def ReaderAt_Close_def)

lemma GetManifest_nread:
  assumes "blobs w dgst = Inr b"
  shows "nread (snd (GetManifest Decode repo dgst w)) = nread w + snd (Decode b)"
proof -
  obtain res k where d: "Decode b = (res, k)" by (cases "Decode b")
  show ?thesis
  proof (cases res)
    case (Inl err)
    with assms d show ?thesis by (simp add: GetManifest_undecodable)
  next
    case (Inr mt)
    with assms d show ?thesis by (simp add: GetManifest_present)
  qed
qed




lemma scan_InString_replicate:
  "plain_char a \<Longrightarrow> a \<noteq> CHR 0x22 \<Longrightarrow>
   scan (InString key v) mt k (replicate n a @ rest) =
     scan (InString key (v @ replicate n a)) mt (k + n) rest"
proof (induction n arbitrary: v k)
  case 0
  show ?case by simp
next
  case (Suc n)
  from Suc.prems Suc.IH[OF Suc.prems, of "v @ [a]" "Suc k"] show ?case
    by (simp add: replicate_app_Cons_same)
qed

lemma Decode_padded_manifest:
  "Decode_mediaType (padded_manifest n) = (Inr (replicate n (CHR ''a'')), n + 16)"
proof -
  have "Decode_mediaType (padded_manifest n) =
          scan (InString ''mediaType'' []) [] 14 (replicate n (CHR ''a'') @ [CHR 0x22, CHR ''}''])"
    by (simp add: Decode_mediaType_def padded_manifest_def is_space_def plain_char_def
        eval_nat_numeral)
  also have "\<dots> =
      scan (InString ''mediaType'' (replicate n (CHR ''a''))) [] (14 + n) [CHR 0x22, CHR ''}'']"
    using scan_InString_replicate[of "CHR ''a''" "''mediaType''" "[]" "[]" 14 n
        "[CHR 0x22, CHR ''}'']"]
    by (simp add: plain_char_def)
  also have "\<dots> = (Inr (replicate n (CHR ''a'')), n + 16)"
    by (simp add: is_space_def to_lower_def)
  finally show ?thesis .
qed

text \<open>
  C4 (defect of the code). The claim is that the decode of \<^verbatim>\<open>GetManifest\<close> reads at most
  a fixed number of bytes. On the code the decoder gets the reader over the whole blob
  (the limited reader is a note in the source, not code): what \<^verbatim>\<open>GetManifest\<close> reads is
  what the decoder takes of the whole blob, and on the manifest whose declared media
  type is \<open>n\<close> bytes long that is more than \<open>n\<close> bytes, for every \<open>n\<close>.
\<close>

theorem GetManifest_reads_without_bound:
  "(blobs w dgst = Inr b \<longrightarrow>
      nread (snd (GetManifest Decode repo dgst w)) = nread w + snd (Decode b)) \<and>
   n < nread (snd (GetManifest Decode_mediaType repo dgst
                     (mock_world [(dgst, padded_manifest n)] [])))"
proof (intro conjI impI)
  assume "blobs w dgst = Inr b"
  then show "nread (snd (GetManifest Decode repo dgst w)) = nread w + snd (Decode b)"
    by (rule GetManifest_nread)
next
  let ?w = "mock_world [(dgst, padded_manifest n)] []"
  have b: "blobs ?w dgst = Inr (padded_manifest n)"
    by (simp add: mock_world_def)
  have z: "nread ?w = 0"
    by (simp add: mock_world_def)
  from GetManifest_nread[OF b, of Decode_mediaType repo] z
  have "nread (snd (GetManifest Decode_mediaType repo dgst ?w)) = n + 16"
    by (simp add: Decode_padded_manifest)
  then show "n < nread (snd (GetManifest Decode_mediaType repo dgst ?w))" by simp
qed

theorem GetManifest_reads_without_bound_witness:
  \<open>blobs example_world manifest_M =
     Inr ''{"mediaType":"application/vnd.oci.image.manifest.v1+json"}'' \<and>
   nread (snd (GetManifest Decode_mediaType ''a/b'' manifest_M example_world)) = 58 \<and>
   1000 < nread (snd (GetManifest Decode_mediaType ''a/b'' manifest_M
                        (mock_world [(manifest_M, padded_manifest 1000)] [])))\<close>
proof -
  have m: \<open>blobs example_world manifest_M =
             Inr ''{"mediaType":"application/vnd.oci.image.manifest.v1+json"}''\<close>
    by (simp add: example_world_def mock_world_def blob_D_def manifest_M_def)
  have z: "nread example_world = 0"
    by (simp add: example_world_def mock_world_def)
  have d: \<open>Decode_mediaType ''{"mediaType":"application/vnd.oci.image.manifest.v1+json"}'' =
             (Inr ''application/vnd.oci.image.manifest.v1+json'', 58)\<close>
    by (simp add: Decode_mediaType_def is_space_def plain_char_def to_lower_def)
  note t = GetManifest_reads_without_bound[where Decode = Decode_mediaType
      and repo = "''a/b''" and dgst = manifest_M]
  from t[where w = example_world] m z d
  have "nread (snd (GetManifest Decode_mediaType ''a/b'' manifest_M example_world)) = 58"
    by simp
  moreover from t[where n = 1000]
  have "1000 < nread (snd (GetManifest Decode_mediaType ''a/b'' manifest_M
                             (mock_world [(manifest_M, padded_manifest 1000)] [])))"
    by simp
  ultimately show ?thesis using m by simp
qed

section \<open>Repository enumeration\<close>

lemma parsed_repositories_Nil: "parsed_repositories P [] = []"
  by (simp add: parsed_repositories_def List.map_filter_simps)

lemma parsed_repositories_Cons:
  "parsed_repositories P (img # imgs) =
     (case P (Name img) of None \<Rightarrow> parsed_repositories P imgs
      | Some r \<Rightarrow> named_Name r # parsed_repositories P imgs)"
  by (simp add: parsed_repositories_def List.map_filter_simps split: option.splits)

text \<open>
  The loop, started with a nonempty slice: everything but the last name stays, and the
  last name heads the run-collapsed sequence of the names still to come.
\<close>

lemma Repositories_loop_snoc:
  "Repositories_loop P imgs (names @ [x]) = names @ remdups_adj (x # parsed_repositories P imgs)"
proof (induction imgs arbitrary: names x)
  case Nil
  show ?case by (simp add: parsed_repositories_Nil)
next
  case (Cons img imgs)
  show ?case
  proof (cases "P (Name img)")
    case None
    then show ?thesis using Cons.IH[of names x] by (simp add: parsed_repositories_Cons)
  next
    case (Some r)
    show ?thesis
    proof (cases "x = named_Name r")
      case True
      with Some show ?thesis using Cons.IH[of names x] by (simp add: parsed_repositories_Cons)
    next
      case False
      with Some show ?thesis using Cons.IH[of "names @ [x]" "named_Name r"]
        by (simp add: parsed_repositories_Cons)
    qed
  qed
qed

lemma Repositories_loop_Nil:
  "Repositories_loop P imgs [] = remdups_adj (parsed_repositories P imgs)"
proof (induction imgs)
  case Nil
  show ?case by (simp add: parsed_repositories_Nil)
next
  case (Cons img imgs)
  show ?case
  proof (cases "P (Name img)")
    case None
    with Cons show ?thesis by (simp add: parsed_repositories_Cons)
  next
    case (Some r)
    then show ?thesis using Repositories_loop_snoc[of P imgs "[]" "named_Name r"]
      by (simp add: parsed_repositories_Cons)
  qed
qed

lemma sorted_remdups_adj_distinct:
  "sorted (xs :: 'a :: linorder list) \<Longrightarrow> distinct (remdups_adj xs)"
  by (induction xs rule: remdups_adj.induct) auto

text \<open>
  C5 (amended). \<^verbatim>\<open>Repositories\<close> emits the parsed repository names in catalog order,
  each run of equal consecutive names collapsed to one, since a name is compared with
  the last emitted one only. So every repository name of the catalog is emitted, and
  only such names; and when the parsed names come in non-decreasing order, the output
  is non-decreasing and has every name exactly once.
\<close>

theorem Repositories_dedups_adjacent:
  assumes "images w = Inr imgs"
  shows "\<exists>names. Repositories P w = SliceIter names \<and>
           names = remdups_adj (parsed_repositories P imgs) \<and>
           set names = set (parsed_repositories P imgs) \<and>
           (sorted (parsed_repositories P imgs) \<longrightarrow> sorted names \<and> distinct names)"
proof (intro exI conjI impI)
  from assms show "Repositories P w = SliceIter (remdups_adj (parsed_repositories P imgs))"
    by (simp add: Repositories_def ImageService_List_def Repositories_loop_Nil)
next
  show "remdups_adj (parsed_repositories P imgs) = remdups_adj (parsed_repositories P imgs)"
    by (rule refl)
next
  show "set (remdups_adj (parsed_repositories P imgs)) = set (parsed_repositories P imgs)"
    by simp
next
  assume "sorted (parsed_repositories P imgs)"
  then show "sorted (remdups_adj (parsed_repositories P imgs))"
    by (rule sorted_remdups_adj)
next
  assume "sorted (parsed_repositories P imgs)"
  then show "distinct (remdups_adj (parsed_repositories P imgs))"
    by (rule sorted_remdups_adj_distinct)
qed

theorem Repositories_dedups_adjacent_witness:
  "images example_world = Inr example_catalog \<and>
   parsed_repositories docker_ParseNormalizedNamed example_catalog =
     [''docker.io/a/b'', ''docker.io/a/b'', ''docker.io/c/d''] \<and>
   sorted [''docker.io/a/b'', ''docker.io/a/b'', ''docker.io/c/d''] \<and>
   Repositories docker_ParseNormalizedNamed example_world =
     SliceIter [''docker.io/a/b'', ''docker.io/c/d''] \<and>
   sorted [''docker.io/a/b'', ''docker.io/c/d''] \<and>
   distinct [''docker.io/a/b'', ''docker.io/c/d'']"
proof -
  have i: "images example_world = Inr example_catalog"
    by (simp add: example_world_def mock_world_def)
  have p: "parsed_repositories docker_ParseNormalizedNamed example_catalog =
             [''docker.io/a/b'', ''docker.io/a/b'', ''docker.io/c/d'']"
    by code_simp
  have s: "sorted [''docker.io/a/b'', ''docker.io/a/b'', ''docker.io/c/d'']"
    by simp
  from Repositories_dedups_adjacent[OF i, of docker_ParseNormalizedNamed] p s
  have "Repositories docker_ParseNormalizedNamed example_world =
          SliceIter [''docker.io/a/b'', ''docker.io/c/d''] \<and>
        sorted [''docker.io/a/b'', ''docker.io/c/d''] \<and>
        distinct [''docker.io/a/b'', ''docker.io/c/d'']"
    by simp
  with i p s show ?thesis by simp
qed

text \<open>
  The claim as stated fails on catalogs sorted by name. In \<open>dash_catalog\<close> the
  repository \<^verbatim>\<open>docker.io/a/b-c\<close> is listed, and emitted, before \<^verbatim>\<open>docker.io/a/b\<close>: the
  output is not in non-decreasing order. In \<open>familiar_catalog\<close> the names
  \<^verbatim>\<open>docker.io/library/ubuntu:a\<close> and \<^verbatim>\<open>ubuntu:c\<close> normalise to one repository and are not
  neighbours: it is emitted twice.
\<close>

theorem Repositories_order_counterexample:
  "sorted (map Name dash_catalog) \<and>
   Repositories docker_ParseNormalizedNamed (mock_world [] dash_catalog) =
     SliceIter [''docker.io/a/b-c'', ''docker.io/a/b''] \<and>
   \<not> sorted [''docker.io/a/b-c'', ''docker.io/a/b''] \<and>
   sorted (map Name familiar_catalog) \<and>
   Repositories docker_ParseNormalizedNamed (mock_world [] familiar_catalog) =
     SliceIter [''docker.io/library/ubuntu'', ''quay.io/x'', ''docker.io/library/ubuntu''] \<and>
   \<not> distinct [''docker.io/library/ubuntu'', ''quay.io/x'', ''docker.io/library/ubuntu'']"
proof -
  have "sorted (map Name dash_catalog)" and "sorted (map Name familiar_catalog)"
    by (simp_all add: dash_catalog_def familiar_catalog_def)
  moreover have "Repositories docker_ParseNormalizedNamed (mock_world [] dash_catalog) =
      SliceIter [''docker.io/a/b-c'', ''docker.io/a/b'']"
    by code_simp
  moreover have "Repositories docker_ParseNormalizedNamed (mock_world [] familiar_catalog) =
      SliceIter [''docker.io/library/ubuntu'', ''quay.io/x'', ''docker.io/library/ubuntu'']"
    by code_simp
  ultimately show ?thesis by simp
qed

section \<open>Tag enumeration\<close>

lemma Tags_loop_origin:
  "t \<in> set (Tags_loop P imgs tags) \<Longrightarrow>
     t \<in> set tags \<or>
     (\<exists>img\<in>set imgs. \<exists>r. P (Name img) = Some r \<and> as_Digested r = None \<and> as_Tagged r = Some t)"
proof (induction imgs arbitrary: tags)
  case Nil
  then show ?case by simp
next
  case (Cons img imgs)
  show ?case
  proof (cases "P (Name img)")
    case None
    with Cons.prems have "t \<in> set (Tags_loop P imgs tags)" by simp
    from Cons.IH[OF this] show ?thesis by auto
  next
    case (Some r)
    note parsed = this
    show ?thesis
    proof (cases "as_Digested r")
      case (Some d)
      with parsed Cons.prems have "t \<in> set (Tags_loop P imgs tags)" by simp
      from Cons.IH[OF this] show ?thesis by auto
    next
      case None
      note no_digest = this
      show ?thesis
      proof (cases "as_Tagged r")
        case None
        with no_digest parsed Cons.prems have "t \<in> set (Tags_loop P imgs tags)" by simp
        from Cons.IH[OF this] show ?thesis by auto
      next
        case (Some u)
        with no_digest parsed Cons.prems have "t \<in> set (Tags_loop P imgs (tags @ [u]))"
          by simp
        from Cons.IH[OF this] Some no_digest parsed show ?thesis by auto
      qed
    qed
  qed
qed

lemma tagged_only:
  "as_Digested r = None \<Longrightarrow> as_Tagged r = Some t \<Longrightarrow> \<exists>n. r = Named (taggedReference n t)"
  by (cases r rule: as_Digested.cases) auto

lemma Tags_loop_skips_digested:
  "Tags_loop P (filter (not_digest_form P) imgs) tags = Tags_loop P imgs tags"
  by (induction imgs arbitrary: tags) (auto simp: not_digest_form_def split: option.splits)

text \<open>
  C6 (amended). For a parser that returns references which print as the name they
  were parsed from: every tag that \<^verbatim>\<open>Tags\<close> emits for \<open>repo\<close> is the tag of a catalog entry
  whose name begins with \<open>repo:\<close> and parses as a tagged reference \<open>n:t\<close> without digest,
  so the entry is \<open>n:t\<close> for the parsed repository name \<open>n\<close> (which the code does not
  compare with \<open>repo\<close>); entries in digest form are never emitted, as removing them from
  the catalog changes nothing; and the filter is anchored at the start of the name: a
  name that continues \<open>repo\<close> with any byte but a colon does not match, so \<^verbatim>\<open>foo\<close> does not
  match the entries of \<^verbatim>\<open>foobar\<close>.
\<close>

theorem Tags_emits_tags_of_listed_entries:
  assumes "images w = Inr imgs"
    and "\<forall>img\<in>set imgs. \<forall>r. P (Name img) = Some r \<longrightarrow> Reference_String r = Name img"
  shows "(\<exists>tags. Tags P repo w = SliceIter tags \<and>
            (\<forall>t\<in>set tags. \<exists>img\<in>set imgs. \<exists>n.
                prefix (repo @ '':'') (Name img) \<and>
                P (Name img) = Some (Named (taggedReference n t)) \<and>
                Name img = n @ '':'' @ t)) \<and>
         Tags P repo (w\<lparr>images := Inr (filter (not_digest_form P) imgs)\<rparr>) = Tags P repo w \<and>
         (\<forall>c rest d. c \<noteq> CHR '':'' \<longrightarrow>
            \<not> filter_matches (NameMatchesAnchored (repo @ '':''))
                 \<lparr>Name = repo @ c # rest, Target = d\<rparr>)"
proof (intro conjI)
  let ?listed = "filter (\<lambda>img. prefix (repo @ '':'') (Name img)) imgs"
  have t: "Tags P repo w = SliceIter (Tags_loop P ?listed [])"
    using assms(1) by (simp add: Tags_def ImageService_List_def)
  have "\<forall>t\<in>set (Tags_loop P ?listed []). \<exists>img\<in>set imgs. \<exists>n.
          prefix (repo @ '':'') (Name img) \<and>
          P (Name img) = Some (Named (taggedReference n t)) \<and> Name img = n @ '':'' @ t"
  proof
    fix t assume "t \<in> set (Tags_loop P ?listed [])"
    from Tags_loop_origin[OF this] obtain img r where
      i: "img \<in> set ?listed" and p: "P (Name img) = Some r"
      and d: "as_Digested r = None" and g: "as_Tagged r = Some t" by auto
    from tagged_only[OF d g] obtain n where r: "r = Named (taggedReference n t)" ..
    from i have m: "img \<in> set imgs" and pre: "prefix (repo @ '':'') (Name img)" by auto
    from assms(2) m p have "Reference_String r = Name img" by blast
    with r have "Name img = n @ '':'' @ t" by simp
    with m pre p r show "\<exists>img\<in>set imgs. \<exists>n.
          prefix (repo @ '':'') (Name img) \<and>
          P (Name img) = Some (Named (taggedReference n t)) \<and> Name img = n @ '':'' @ t"
      by blast
  qed
  with t show "\<exists>tags. Tags P repo w = SliceIter tags \<and>
            (\<forall>t\<in>set tags. \<exists>img\<in>set imgs. \<exists>n.
                prefix (repo @ '':'') (Name img) \<and>
                P (Name img) = Some (Named (taggedReference n t)) \<and>
                Name img = n @ '':'' @ t)" by blast
next
  let ?pre = "\<lambda>img. prefix (repo @ '':'') (Name img)"
  have c: "filter ?pre (filter (not_digest_form P) imgs) =
           filter (not_digest_form P) (filter ?pre imgs)"
    by (induction imgs) auto
  have "Tags P repo (w\<lparr>images := Inr (filter (not_digest_form P) imgs)\<rparr>) =
          SliceIter (Tags_loop P (filter ?pre (filter (not_digest_form P) imgs)) [])"
    by (simp add: Tags_def ImageService_List_def)
  also have "\<dots> = SliceIter (Tags_loop P (filter ?pre imgs) [])"
    unfolding c by (simp only: Tags_loop_skips_digested)
  also have "\<dots> = Tags P repo w"
    using assms(1) by (simp add: Tags_def ImageService_List_def)
  finally show "Tags P repo (w\<lparr>images := Inr (filter (not_digest_form P) imgs)\<rparr>) =
      Tags P repo w" .
next
  show "\<forall>c rest d. c \<noteq> CHR '':'' \<longrightarrow>
          \<not> filter_matches (NameMatchesAnchored (repo @ '':''))
               \<lparr>Name = repo @ c # rest, Target = d\<rparr>"
    by simp
qed

lemma example_catalog_parses:
  "docker_Parse ''docker.io/a/b:v1'' = Some (Named (taggedReference ''docker.io/a/b'' ''v1''))"
  "docker_Parse ''docker.io/a/b:v2'' = Some (Named (taggedReference ''docker.io/a/b'' ''v2''))"
  "docker_Parse
     ''docker.io/c/d@sha256:4a1c4b21597c1b4415bdbecb28a3296c6b5e23ca4f9feeb599860a1dac6a0108'' =
   Some (Named (canonicalReference ''docker.io/c/d''
     ''sha256:4a1c4b21597c1b4415bdbecb28a3296c6b5e23ca4f9feeb599860a1dac6a0108''))"
  by code_simp+

theorem Tags_emits_tags_of_listed_entries_witness:
  "images example_world = Inr example_catalog \<and>
   Tags docker_Parse ''docker.io/a/b'' example_world = SliceIter [''v1'', ''v2''] \<and>
   Tags docker_Parse ''docker.io/c/d'' example_world = SliceIter [] \<and>
   Tags docker_Parse ''docker.io/a/b''
     (example_world\<lparr>images := Inr (filter (not_digest_form docker_Parse) example_catalog)\<rparr>) =
     SliceIter [''v1'', ''v2''] \<and>
   \<not> filter_matches (NameMatchesAnchored ''foo:'')
        \<lparr>Name = ''foobar:tag'', Target = \<lparr>MediaType = [], Digest = blob_D, Size = 0\<rparr>\<rparr>"
proof -
  have i: "images example_world = Inr example_catalog"
    by (simp add: example_world_def mock_world_def)
  have f: "\<forall>img\<in>set example_catalog. \<forall>r.
             docker_Parse (Name img) = Some r \<longrightarrow> Reference_String r = Name img"
    by (auto simp: example_catalog_def example_catalog_parses)
  have ab: "Tags docker_Parse ''docker.io/a/b'' example_world = SliceIter [''v1'', ''v2'']"
    by code_simp
  have cd: "Tags docker_Parse ''docker.io/c/d'' example_world = SliceIter []"
    by code_simp
  note t = Tags_emits_tags_of_listed_entries[OF i f]
  from t[of "''docker.io/a/b''"] ab
  have "Tags docker_Parse ''docker.io/a/b''
          (example_world\<lparr>images := Inr (filter (not_digest_form docker_Parse) example_catalog)\<rparr>) =
        SliceIter [''v1'', ''v2'']" by simp
  moreover from t[of "''foo''"]
  have "\<not> filter_matches (NameMatchesAnchored (''foo'' @ '':''))
        \<lparr>Name = ''foo'' @ CHR ''b'' # ''ar:tag'',
         Target = \<lparr>MediaType = [], Digest = blob_D, Size = 0\<rparr>\<rparr>" by blast
  then have "\<not> filter_matches (NameMatchesAnchored ''foo:'')
        \<lparr>Name = ''foobar:tag'', Target = \<lparr>MediaType = [], Digest = blob_D, Size = 0\<rparr>\<rparr>"
    by simp
  ultimately show ?thesis using i ab cd by simp
qed

text \<open>
  The claim as stated fails for the repository \<^verbatim>\<open>localhost\<close> on a catalog whose one
  image lives on the registry \<^verbatim>\<open>localhost:5000\<close>: its name begins with \<^verbatim>\<open>localhost:\<close>, so
  the filter lists it, and its tag is emitted; no entry is named \<^verbatim>\<open>localhost:v1\<close>.
\<close>

theorem Tags_other_repository_counterexample:
  "Tags docker_Parse ''localhost'' (mock_world [] port_catalog) = SliceIter [''v1''] \<and>
   docker_Parse ''localhost:5000/foo:v1'' =
     Some (Named (taggedReference ''localhost:5000/foo'' ''v1'')) \<and>
   ''localhost'' @ '':'' @ ''v1'' \<notin> Name ` set port_catalog"
proof -
  have "Tags docker_Parse ''localhost'' (mock_world [] port_catalog) = SliceIter [''v1'']"
    by code_simp
  moreover have "docker_Parse ''localhost:5000/foo:v1'' =
      Some (Named (taggedReference ''localhost:5000/foo'' ''v1''))"
    by code_simp
  moreover have "''localhost'' @ '':'' @ ''v1'' \<notin> Name ` set port_catalog"
    by (simp add: port_catalog_def)
  ultimately show ?thesis by simp
qed

end
